theory Spec2Isabelle
  imports Complex_Main
begin

section \<open>JavaScript numbers\<close>

text \<open>
  A JavaScript number is an IEEE double. The special values the engine can produce
  (\<open>NaN\<close> from \<open>0/0\<close>, the infinities from a division by zero) are kept as
  constructors; a finite double is idealised as a real, so rounding, overflow and the
  sign of zero are not part of the model (a zero divisor is taken as \<open>+0\<close>).
\<close>

datatype jsnum = NaN | PInf | NInf | Fin real

fun js_neg :: "jsnum \<Rightarrow> jsnum" where
  "js_neg NaN = NaN"
| "js_neg PInf = NInf"
| "js_neg NInf = PInf"
| "js_neg (Fin a) = Fin (- a)"

fun js_add :: "jsnum \<Rightarrow> jsnum \<Rightarrow> jsnum" where
  "js_add NaN y = NaN"
| "js_add x NaN = NaN"
| "js_add PInf NInf = NaN"
| "js_add NInf PInf = NaN"
| "js_add PInf y = PInf"
| "js_add NInf y = NInf"
| "js_add x PInf = PInf"
| "js_add x NInf = NInf"
| "js_add (Fin a) (Fin b) = Fin (a + b)"

definition js_sub :: "jsnum \<Rightarrow> jsnum \<Rightarrow> jsnum" where
  "js_sub x y = js_add x (js_neg y)"

text \<open>The infinity whose sign is positive exactly when the flag holds.\<close>

definition inf_of :: "bool \<Rightarrow> jsnum" where
  "inf_of pos = (if pos then PInf else NInf)"

fun js_mul :: "jsnum \<Rightarrow> jsnum \<Rightarrow> jsnum" where
  "js_mul NaN y = NaN"
| "js_mul x NaN = NaN"
| "js_mul PInf PInf = PInf"
| "js_mul PInf NInf = NInf"
| "js_mul NInf PInf = NInf"
| "js_mul NInf NInf = PInf"
| "js_mul PInf (Fin b) = (if b = 0 then NaN else inf_of (0 < b))"
| "js_mul NInf (Fin b) = (if b = 0 then NaN else inf_of (b < 0))"
| "js_mul (Fin a) PInf = (if a = 0 then NaN else inf_of (0 < a))"
| "js_mul (Fin a) NInf = (if a = 0 then NaN else inf_of (a < 0))"
| "js_mul (Fin a) (Fin b) = Fin (a * b)"

fun js_div :: "jsnum \<Rightarrow> jsnum \<Rightarrow> jsnum" where
  "js_div NaN y = NaN"
| "js_div x NaN = NaN"
| "js_div PInf PInf = NaN"
| "js_div PInf NInf = NaN"
| "js_div NInf PInf = NaN"
| "js_div NInf NInf = NaN"
| "js_div PInf (Fin b) = inf_of (0 \<le> b)"
| "js_div NInf (Fin b) = inf_of (b < 0)"
| "js_div (Fin a) PInf = Fin 0"
| "js_div (Fin a) NInf = Fin 0"
| "js_div (Fin a) (Fin b) =
     (if b = 0 then (if a = 0 then NaN else inf_of (0 < a)) else Fin (a / b))"

text \<open>Comparisons: every comparison with \<open>NaN\<close> is false.\<close>

fun js_lt :: "jsnum \<Rightarrow> jsnum \<Rightarrow> bool" where
  "js_lt NaN y = False"
| "js_lt x NaN = False"
| "js_lt PInf y = False"
| "js_lt x NInf = False"
| "js_lt NInf y = True"
| "js_lt x PInf = True"
| "js_lt (Fin a) (Fin b) = (a < b)"

fun js_le :: "jsnum \<Rightarrow> jsnum \<Rightarrow> bool" where
  "js_le NaN y = False"
| "js_le x NaN = False"
| "js_le NInf y = True"
| "js_le x PInf = True"
| "js_le PInf y = False"
| "js_le x NInf = False"
| "js_le (Fin a) (Fin b) = (a \<le> b)"

definition js_gt :: "jsnum \<Rightarrow> jsnum \<Rightarrow> bool" where
  "js_gt x y = js_lt y x"

definition js_ge :: "jsnum \<Rightarrow> jsnum \<Rightarrow> bool" where
  "js_ge x y = js_le y x"

text \<open>\<open>x === y\<close> on numbers: \<open>NaN\<close> is not equal to itself.\<close>

definition js_eq :: "jsnum \<Rightarrow> jsnum \<Rightarrow> bool" where
  "js_eq x y = (x \<noteq> NaN \<and> y \<noteq> NaN \<and> x = y)"

text \<open>Truthiness of a number: \<open>0\<close> and \<open>NaN\<close> are falsy.\<close>

definition truthy :: "jsnum \<Rightarrow> bool" where
  "truthy x = (x \<noteq> NaN \<and> x \<noteq> Fin 0)"

text \<open>\<open>Math.min\<close> and \<open>Math.max\<close> of two arguments: \<open>NaN\<close> if either is.\<close>

definition Math_min :: "jsnum \<Rightarrow> jsnum \<Rightarrow> jsnum" where
  "Math_min x y = (if x = NaN \<or> y = NaN then NaN else if js_le x y then x else y)"

definition Math_max :: "jsnum \<Rightarrow> jsnum \<Rightarrow> jsnum" where
  "Math_max x y = (if x = NaN \<or> y = NaN then NaN else if js_le x y then y else x)"

fun Math_abs :: "jsnum \<Rightarrow> jsnum" where
  "Math_abs NaN = NaN"
| "Math_abs PInf = PInf"
| "Math_abs NInf = PInf"
| "Math_abs (Fin a) = Fin \<bar>a\<bar>"

fun Math_sqrt :: "jsnum \<Rightarrow> jsnum" where
  "Math_sqrt NaN = NaN"
| "Math_sqrt PInf = PInf"
| "Math_sqrt NInf = NaN"
| "Math_sqrt (Fin a) = (if a < 0 then NaN else Fin (sqrt a))"

text \<open>
  \<open>Math.pow\<close> with an integer exponent (period indices and repayment terms are
  integers): \<open>Math.pow(x, 0)\<close> is \<open>1\<close> for every \<open>x\<close>, also for \<open>NaN\<close>.
\<close>

fun Math_pow :: "jsnum \<Rightarrow> int \<Rightarrow> jsnum" where
  "Math_pow x e =
     (if e = 0 then Fin 1
      else case x of
        NaN \<Rightarrow> NaN
      | PInf \<Rightarrow> (if 0 < e then PInf else Fin 0)
      | NInf \<Rightarrow> (if 0 < e then (if even e then PInf else NInf) else Fin 0)
      | Fin b \<Rightarrow>
          (if 0 < e then Fin (b ^ nat e)
           else if b = 0 then PInf
           else Fin (1 / b ^ nat (- e))))"

text \<open>\<open>a || b\<close> and \<open>a ?? b\<close> on an optional number, with a number as the default.\<close>

definition or_else :: "jsnum option \<Rightarrow> jsnum \<Rightarrow> jsnum" where
  "or_else a d = (case a of None \<Rightarrow> d | Some v \<Rightarrow> if truthy v then v else d)"

definition nullish_else :: "'a option \<Rightarrow> 'a \<Rightarrow> 'a" where
  "nullish_else a d = (case a of None \<Rightarrow> d | Some v \<Rightarrow> v)"

text \<open>The same on an optional integer field (\<open>0\<close> is falsy).\<close>

definition or_else_int :: "int option \<Rightarrow> int \<Rightarrow> int" where
  "or_else_int a d = (case a of None \<Rightarrow> d | Some v \<Rightarrow> if v \<noteq> 0 then v else d)"

section \<open>Root finder\<close>

text \<open>
  \<open>npv(rate) = cashFlows.reduce((acc, cf, t) => acc + cf / Math.pow(1 + rate, t), 0)\<close>
\<close>

fun npv_from :: "jsnum \<Rightarrow> jsnum list \<Rightarrow> int \<Rightarrow> jsnum \<Rightarrow> jsnum" where
  "npv_from rate [] t acc = acc"
| "npv_from rate (cf # cfs) t acc =
     npv_from rate cfs (t + 1) (js_add acc (js_div cf (Math_pow (js_add (Fin 1) rate) t)))"

definition npv :: "jsnum list \<Rightarrow> jsnum \<Rightarrow> jsnum" where
  "npv cashFlows rate = npv_from rate cashFlows 0 (Fin 0)"

text \<open>
  The bisection loop \<open>for (let i = 0; i < iterations; i++)\<close>, by recursion on the
  iterations left; the value is what \<open>computeIRR\<close> returns from the loop or after it.
\<close>

fun bisect :: "jsnum list \<Rightarrow> jsnum \<Rightarrow> nat \<Rightarrow> jsnum \<Rightarrow> jsnum \<Rightarrow> jsnum \<Rightarrow> jsnum \<Rightarrow> jsnum" where
  "bisect cashFlows tol 0 low high fLow fHigh = js_div (js_add low high) (Fin 2)"
| "bisect cashFlows tol (Suc k) low high fLow fHigh =
     (let mid = js_div (js_add low high) (Fin 2);
          fMid = npv cashFlows mid
      in if js_lt (Math_abs fMid) tol then mid
         else if js_le (js_mul fLow fMid) (Fin 0)
              then bisect cashFlows tol k low mid fLow fMid
              else bisect cashFlows tol k mid high fMid fHigh)"

definition computeIRR_with ::
  "jsnum list \<Rightarrow> jsnum \<Rightarrow> jsnum \<Rightarrow> nat \<Rightarrow> jsnum \<Rightarrow> jsnum option" where
  "computeIRR_with cashFlows guessLow guessHigh iterations tol =
     (let fLow = npv cashFlows guessLow; fHigh = npv cashFlows guessHigh
      in if js_gt (js_mul fLow fHigh) (Fin 0) then None
         else Some (bisect cashFlows tol iterations guessLow guessHigh fLow fHigh))"

definition guessLow_default :: jsnum where
  "guessLow_default = Fin (- 0.9999)"

definition guessHigh_default :: jsnum where
  "guessHigh_default = Fin 10"

definition iterations_default :: nat where
  "iterations_default = 80"

definition tol_default :: jsnum where
  "tol_default = Fin (1 / 1000000)"

definition computeIRR :: "jsnum list \<Rightarrow> jsnum option" where
  "computeIRR cashFlows =
     computeIRR_with cashFlows guessLow_default guessHigh_default iterations_default tol_default"

section \<open>KPI calculators\<close>

definition computeROI :: "jsnum \<Rightarrow> jsnum \<Rightarrow> jsnum option" where
  "computeROI totalNetProfit initialInvestment =
     (if \<not> truthy initialInvestment \<or> js_eq initialInvestment (Fin 0) then None
      else Some (js_div totalNetProfit initialInvestment))"

fun breakEven_scan :: "jsnum list \<Rightarrow> jsnum \<Rightarrow> nat \<Rightarrow> nat option" where
  "breakEven_scan [] initialInvestment i = None"
| "breakEven_scan (c # cs) initialInvestment i =
     (if js_ge c initialInvestment then Some (i + 1)
      else breakEven_scan cs initialInvestment (i + 1))"

definition computeBreakEven :: "jsnum list \<Rightarrow> jsnum \<Rightarrow> nat option" where
  "computeBreakEven cumulativeProfits initialInvestment =
     (if \<not> truthy initialInvestment \<or> js_le initialInvestment (Fin 0) then None
      else breakEven_scan cumulativeProfits initialInvestment 0)"

record risk_record =
  risk_std :: jsnum
  risk_mean :: jsnum
  risk_riskIndex :: jsnum

text \<open>
  \<open>computeRiskIndex\<close> returns the bare number \<open>0\<close> on its early exit and an object
  otherwise, so its result is one of the two.
\<close>

datatype risk_result = RiskNumber jsnum | RiskObject risk_record

definition computeRiskIndex :: "jsnum list \<Rightarrow> risk_result" where
  "computeRiskIndex profits =
     (if length profits = 0 then RiskNumber (Fin 0)
      else
        let mean = js_div (foldl js_add (Fin 0) profits) (Fin (real (length profits)));
            variance =
              js_div (foldl (\<lambda>a b. js_add a (Math_pow (js_sub b mean) 2)) (Fin 0) profits)
                     (Fin (real (length profits)));
            std = Math_sqrt variance
        in RiskObject \<lparr>risk_std = std, risk_mean = mean, risk_riskIndex = std\<rparr>)"

text \<open>Reading a property of the result: \<open>undefined\<close> (here \<open>None\<close>) on a number.\<close>

fun risk_field :: "(risk_record \<Rightarrow> jsnum) \<Rightarrow> risk_result \<Rightarrow> jsnum option" where
  "risk_field f (RiskNumber n) = None"
| "risk_field f (RiskObject r) = Some (f r)"

section \<open>Data model\<close>

text \<open>
  The records a lookup by identifier yields. \<open>initialInvestment\<close>, \<open>cashBalance\<close>
  and \<open>debts\<close> are read through \<open>business?.field\<close> and may be missing.
\<close>

record raw_debt =
  rd_principal :: "jsnum option"
  rd_amount :: "jsnum option"
  rd_annualRate :: "jsnum option"
  rd_rate :: "jsnum option"
  rd_periodsToRepay :: "int option"
  rd_term :: "int option"
  rd_startPeriod :: "int option"

record business =
  b_revenue :: jsnum
  b_cost :: jsnum
  b_initialInvestment :: "jsnum option"
  b_cashBalance :: "jsnum option"
  b_debts :: "raw_debt list option"

record strategy =
  st_growthRate :: jsnum
  st_costRate :: jsnum

record investment =
  inv_period :: int
  inv_amount :: "jsnum option"

record overrides =
  ov_revenue :: "jsnum option"
  ov_cost :: "jsnum option"
  ov_initialInvestment :: "jsnum option"
  ov_cashBalance :: "jsnum option"
  ov_growthRate :: "jsnum option"
  ov_costRate :: "jsnum option"
  ov_growthRateDelta :: "jsnum option"
  ov_costRateDelta :: "jsnum option"
  ov_debts :: "raw_debt list option"
  ov_oneTimeInvestments :: "investment list option"
  ov_marketingPerPeriod :: "jsnum option"
  ov_priceDeltaPercent :: "jsnum option"
  ov_marketingMultiplier :: "jsnum option"

text \<open>The working copy of a debt: the normalised terms and the mutable \<open>remaining\<close>.\<close>

record debt =
  principal :: jsnum
  annualRate :: jsnum
  periodsToRepay :: int
  startPeriod :: int
  remaining :: jsnum

record scenario_profile =
  growthRateBoost :: jsnum
  costVolatility :: jsnum

record debt_snapshot =
  ds_remaining :: jsnum
  ds_principal :: jsnum

record period_record =
  period :: int
  revenue :: jsnum
  cost :: jsnum
  profit :: jsnum
  investment :: jsnum
  debtPayment :: jsnum
  netCashFlow :: jsnum
  cashBalance :: jsnum
  cumulativeProfit :: jsnum
  debts :: "debt_snapshot list"

record meta =
  m_periods :: int
  m_scenario :: string
  m_overrides :: overrides
  m_initialInvestment :: jsnum
  startingRevenue :: jsnum
  startingCost :: jsnum

record kpis =
  totalNetProfit :: jsnum
  ROI :: "jsnum option"
  IRR :: "jsnum option"
  breakEvenPeriod :: "nat option"
  riskIndex :: "jsnum option"
  profitStdDev :: "jsnum option"
  profitMean :: "jsnum option"
  cashFlows :: "jsnum list"

record simulation_result =
  res_meta :: meta
  results :: "period_record list"
  res_kpis :: kpis

datatype error = InvalidBusinessOrStrategy | BusinessNotFound | StrategyNotFound

text \<open>
  \<open>Model.findByPk\<close> is a lookup in a table; an identifier is truthy when it is present
  and not \<open>0\<close>.
\<close>

type_synonym 'a table = "int \<rightharpoonup> 'a"

definition findByPk :: "'a table \<Rightarrow> int option \<Rightarrow> 'a option" where
  "findByPk tbl ident = (case ident of None \<Rightarrow> None | Some i \<Rightarrow> tbl i)"

definition id_truthy :: "int option \<Rightarrow> bool" where
  "id_truthy ident = (case ident of None \<Rightarrow> False | Some i \<Rightarrow> i \<noteq> 0)"

section \<open>Simple engine\<close>

record simple_record =
  sr_period :: int
  sr_revenue :: jsnum
  sr_cost :: jsnum
  sr_profit :: jsnum

function simple_loop ::
  "strategy \<Rightarrow> int \<Rightarrow> int \<Rightarrow> jsnum \<Rightarrow> jsnum \<Rightarrow> simple_record list \<Rightarrow> simple_record list" where
  "simple_loop strat n t r c acc =
     (if t \<le> n then
        let r' = js_mul r (js_add (Fin 1) (st_growthRate strat));
            c' = js_mul c (js_add (Fin 1) (st_costRate strat));
            p = js_sub r' c'
        in simple_loop strat n (t + 1) r' c'
             (acc @ [\<lparr>sr_period = t, sr_revenue = r', sr_cost = c', sr_profit = p\<rparr>])
      else acc)"
  by pat_completeness auto
termination
  by (relation "measure (\<lambda>(strat, n, t, r, c, acc). nat (n + 1 - t))") auto

declare simple_loop.simps [simp del]

definition runSimulation ::
  "business table \<Rightarrow> strategy table \<Rightarrow> int option \<Rightarrow> int option \<Rightarrow> int
     \<Rightarrow> error + simple_record list" where
  "runSimulation Business Strategy businessId strategyId periods =
     (case (findByPk Business businessId, findByPk Strategy strategyId) of
        (Some b, Some s) \<Rightarrow> Inr (simple_loop s periods 1 (b_revenue b) (b_cost b) [])
      | _ \<Rightarrow> Inl InvalidBusinessOrStrategy)"

section \<open>Advanced engine\<close>

record sim_args =
  businessId :: "int option"
  strategyId :: "int option"
  periods :: int
  arg_overrides :: overrides
  scenario :: string
  stochastic :: bool

subsection \<open>Resolved inputs\<close>

definition startRevenue :: "business option \<Rightarrow> overrides \<Rightarrow> jsnum" where
  "startRevenue b ov =
     (case b of Some bus \<Rightarrow> b_revenue bus | None \<Rightarrow> or_else (ov_revenue ov) (Fin 1000))"

definition startCost :: "business option \<Rightarrow> overrides \<Rightarrow> jsnum" where
  "startCost b ov =
     (case b of Some bus \<Rightarrow> b_cost bus | None \<Rightarrow> or_else (ov_cost ov) (Fin 500))"

definition initialInvestment :: "business option \<Rightarrow> overrides \<Rightarrow> jsnum" where
  "initialInvestment b ov =
     nullish_else (ov_initialInvestment ov)
       (nullish_else (case b of None \<Rightarrow> None | Some bus \<Rightarrow> b_initialInvestment bus) (Fin 0))"

definition startCash :: "business option \<Rightarrow> overrides \<Rightarrow> jsnum" where
  "startCash b ov =
     nullish_else (ov_cashBalance ov)
       (nullish_else (case b of None \<Rightarrow> None | Some bus \<Rightarrow> b_cashBalance bus) (Fin 0))"

definition growthRateBase :: "strategy option \<Rightarrow> overrides \<Rightarrow> jsnum" where
  "growthRateBase s ov =
     (case s of Some str \<Rightarrow> st_growthRate str
      | None \<Rightarrow> nullish_else (ov_growthRate ov) (Fin 0.05))"

definition costRateBase :: "strategy option \<Rightarrow> overrides \<Rightarrow> jsnum" where
  "costRateBase s ov =
     (case s of Some str \<Rightarrow> st_costRate str
      | None \<Rightarrow> nullish_else (ov_costRate ov) (Fin 0.02))"

definition scenarioDefaults :: "string \<rightharpoonup> scenario_profile" where
  "scenarioDefaults =
     [''startup'' \<mapsto> \<lparr>growthRateBoost = Fin 0.05, costVolatility = Fin 0.15\<rparr>,
      ''manufacturing'' \<mapsto> \<lparr>growthRateBoost = Fin 0.02, costVolatility = Fin 0.08\<rparr>,
      ''retail'' \<mapsto> \<lparr>growthRateBoost = Fin 0.03, costVolatility = Fin 0.10\<rparr>,
      ''generic'' \<mapsto> \<lparr>growthRateBoost = Fin 0, costVolatility = Fin 0.1\<rparr>]"

definition sDefaults :: "string \<Rightarrow> scenario_profile" where
  "sDefaults sc =
     (case scenarioDefaults sc of
        Some p \<Rightarrow> p
      | None \<Rightarrow> \<lparr>growthRateBoost = Fin 0, costVolatility = Fin 0.1\<rparr>)"

definition normalise_debt :: "raw_debt \<Rightarrow> debt" where
  "normalise_debt d =
     \<lparr>principal = or_else (rd_principal d) (or_else (rd_amount d) (Fin 0)),
      annualRate = or_else (rd_annualRate d) (or_else (rd_rate d) (Fin 0)),
      periodsToRepay = or_else_int (rd_periodsToRepay d) (or_else_int (rd_term d) 0),
      startPeriod = or_else_int (rd_startPeriod d) 1,
      remaining = or_else (rd_principal d) (or_else (rd_amount d) (Fin 0))\<rparr>"

definition initial_debts :: "business option \<Rightarrow> overrides \<Rightarrow> debt list" where
  "initial_debts b ov =
     map normalise_debt
       (case ov_debts ov of
          Some ds \<Rightarrow> ds
        | None \<Rightarrow>
            (case (case b of None \<Rightarrow> None | Some bus \<Rightarrow> b_debts bus) of
               Some ds \<Rightarrow> ds
             | None \<Rightarrow> []))"

definition oneTimeInvestments :: "overrides \<Rightarrow> investment list" where
  "oneTimeInvestments ov = (case ov_oneTimeInvestments ov of Some is \<Rightarrow> is | None \<Rightarrow> [])"

definition marketingPerPeriod :: "overrides \<Rightarrow> jsnum" where
  "marketingPerPeriod ov = or_else (ov_marketingPerPeriod ov) (Fin 0)"

definition priceDeltaPercent :: "overrides \<Rightarrow> jsnum" where
  "priceDeltaPercent ov = or_else (ov_priceDeltaPercent ov) (Fin 0)"

definition extraRevenueFromMarketing :: "overrides \<Rightarrow> jsnum \<Rightarrow> jsnum" where
  "extraRevenueFromMarketing ov m = js_mul m (nullish_else (ov_marketingMultiplier ov) (Fin 2))"

subsection \<open>Debt amortizer\<close>

definition annuity_payment :: "debt \<Rightarrow> jsnum" where
  "annuity_payment d =
     js_div (js_mul (principal d) (annualRate d))
       (js_sub (Fin 1) (Math_pow (js_add (Fin 1) (annualRate d)) (- periodsToRepay d)))"

definition paymentAmount :: "debt \<Rightarrow> jsnum" where
  "paymentAmount d =
     Math_min (annuity_payment d) (js_add (remaining d) (js_mul (remaining d) (annualRate d)))"

definition remaining_after :: "debt \<Rightarrow> jsnum" where
  "remaining_after d =
     Math_max (Fin 0)
       (js_sub (remaining d) (js_sub (paymentAmount d) (js_mul (remaining d) (annualRate d))))"

text \<open>A debt is serviced in period \<open>t\<close> when it has started, is open and has a term.\<close>

definition serviced :: "int \<Rightarrow> debt \<Rightarrow> bool" where
  "serviced t d = (startPeriod d \<le> t \<and> js_gt (remaining d) (Fin 0) \<and> \<not> periodsToRepay d \<le> 0)"

text \<open>
  The loop \<open>for (const d of debts)\<close>: it mutates \<open>d.remaining\<close> and adds to
  \<open>debtPaymentTotal\<close>; the model returns the updated debts and the total.
\<close>

fun service_debts :: "int \<Rightarrow> debt list \<Rightarrow> jsnum \<Rightarrow> debt list \<times> jsnum" where
  "service_debts t [] tot = ([], tot)"
| "service_debts t (d # ds) tot =
     (if serviced t d then
        (let (ds', tot') = service_debts t ds (js_add tot (paymentAmount d))
         in (d\<lparr>remaining := remaining_after d\<rparr> # ds', tot'))
      else
        (let (ds', tot') = service_debts t ds tot
         in (d # ds', tot')))"

subsection \<open>Period loop\<close>

fun investment_sum :: "int \<Rightarrow> investment list \<Rightarrow> jsnum \<Rightarrow> jsnum" where
  "investment_sum t [] acc = acc"
| "investment_sum t (i # is) acc =
     investment_sum t is
       (if inv_period i = t then js_add acc (or_else (inv_amount i) (Fin 0)) else acc)"

text \<open>
  What the loop reads but never writes. \<open>Math.random\<close> is an unseeded source: the
  model takes the sequence of its draws as an input and counts the draws made.
\<close>

record loop_env =
  e_overrides :: overrides
  e_growthRateBase :: jsnum
  e_costRateBase :: jsnum
  e_sDefaults :: scenario_profile
  e_stochastic :: bool
  e_random :: "nat \<Rightarrow> real"

record loop_state =
  s_revenue :: jsnum
  s_cost :: jsnum
  s_cash :: jsnum
  s_cumulativeProfit :: jsnum
  s_debts :: "debt list"
  s_cashFlows :: "jsnum list"
  s_results :: "period_record list"
  s_draws :: nat

definition period_step :: "loop_env \<Rightarrow> int \<Rightarrow> loop_state \<Rightarrow> loop_state" where
  "period_step e t st =
     (let ov = e_overrides e;
          growthRate =
            js_add (js_add (e_growthRateBase e) (nullish_else (ov_growthRateDelta ov) (Fin 0)))
                   (or_else (Some (growthRateBoost (e_sDefaults e))) (Fin 0));
          costRate = js_add (e_costRateBase e) (nullish_else (ov_costRateDelta ov) (Fin 0));
          r1 = js_mul (s_revenue st) (js_add (Fin 1) growthRate);
          r2 = js_mul r1 (js_add (Fin 1) (priceDeltaPercent ov));
          r3 = (if js_gt (marketingPerPeriod ov) (Fin 0)
                then js_add r2 (extraRevenueFromMarketing ov (marketingPerPeriod ov))
                else r2);
          r4 = (if e_stochastic e then
                  (let vol = or_else (Some (costVolatility (e_sDefaults e))) (Fin 0.1);
                       noise =
                         js_mul
                           (js_mul
                              (js_sub (js_mul (Fin (e_random e (s_draws st))) (Fin 2)) (Fin 1))
                              vol)
                           r3
                   in Math_max (Fin 0) (js_add r3 noise))
                else r3);
          draws' = (if e_stochastic e then Suc (s_draws st) else s_draws st);
          c1 = js_mul (s_cost st) (js_add (Fin 1) costRate);
          c2 = js_add c1 (marketingPerPeriod ov);
          investmentThisPeriod = investment_sum t (oneTimeInvestments ov) (Fin 0);
          prof = js_sub r4 c2;
          (debts', debtPaymentTotal) = service_debts t (s_debts st) (Fin 0);
          netThisPeriod = js_sub (js_sub prof investmentThisPeriod) debtPaymentTotal;
          cash' = js_add (s_cash st) netThisPeriod;
          cumulativeProfit' = js_add (s_cumulativeProfit st) prof
      in \<lparr>s_revenue = r4, s_cost = c2, s_cash = cash',
          s_cumulativeProfit = cumulativeProfit',
          s_debts = debts',
          s_cashFlows = s_cashFlows st @ [netThisPeriod],
          s_results = s_results st @
            [\<lparr>period = t, revenue = r4, cost = c2, profit = prof,
              investment = investmentThisPeriod, debtPayment = debtPaymentTotal,
              netCashFlow = netThisPeriod, cashBalance = cash',
              cumulativeProfit = cumulativeProfit',
              debts = map (\<lambda>d. \<lparr>ds_remaining = remaining d, ds_principal = principal d\<rparr>) debts'\<rparr>],
          s_draws = draws'\<rparr>)"

function period_loop :: "loop_env \<Rightarrow> int \<Rightarrow> int \<Rightarrow> loop_state \<Rightarrow> loop_state" where
  "period_loop e n t st = (if t \<le> n then period_loop e n (t + 1) (period_step e t st) else st)"
  by pat_completeness auto
termination
  by (relation "measure (\<lambda>(e, n, t, st). nat (n + 1 - t))") auto

declare period_loop.simps [simp del]

subsection \<open>The engine\<close>

definition loop_env_of ::
  "strategy option \<Rightarrow> (nat \<Rightarrow> real) \<Rightarrow> sim_args \<Rightarrow> loop_env" where
  "loop_env_of s rnd args =
     \<lparr>e_overrides = arg_overrides args,
      e_growthRateBase = growthRateBase s (arg_overrides args),
      e_costRateBase = costRateBase s (arg_overrides args),
      e_sDefaults = sDefaults (scenario args),
      e_stochastic = stochastic args,
      e_random = rnd\<rparr>"

definition init_state :: "business option \<Rightarrow> overrides \<Rightarrow> loop_state" where
  "init_state b ov =
     \<lparr>s_revenue = startRevenue b ov, s_cost = startCost b ov, s_cash = startCash b ov,
      s_cumulativeProfit = Fin 0,
      s_debts = initial_debts b ov,
      s_cashFlows = [js_neg (initialInvestment b ov)],
      s_results = [],
      s_draws = 0\<rparr>"

definition final_state ::
  "business option \<Rightarrow> strategy option \<Rightarrow> (nat \<Rightarrow> real) \<Rightarrow> sim_args \<Rightarrow> loop_state" where
  "final_state b s rnd args =
     period_loop (loop_env_of s rnd args) (periods args) 1 (init_state b (arg_overrides args))"

definition assemble :: "business option \<Rightarrow> sim_args \<Rightarrow> loop_state \<Rightarrow> simulation_result" where
  "assemble b args fin =
     (let ov = arg_overrides args;
          tnp = foldl (\<lambda>acc r. js_add acc (profit r)) (Fin 0) (s_results fin);
          inv0 = initialInvestment b ov;
          risk = computeRiskIndex (map profit (s_results fin))
      in \<lparr>res_meta =
            \<lparr>m_periods = periods args, m_scenario = scenario args, m_overrides = ov,
             m_initialInvestment = inv0,
             startingRevenue =
               (case b of Some bus \<Rightarrow> b_revenue bus
                | None \<Rightarrow> nullish_else (ov_revenue ov) (s_revenue fin)),
             startingCost =
               (case b of Some bus \<Rightarrow> b_cost bus
                | None \<Rightarrow> nullish_else (ov_cost ov) (s_cost fin))\<rparr>,
          results = s_results fin,
          res_kpis =
            \<lparr>totalNetProfit = tnp,
             ROI = computeROI tnp inv0,
             IRR = computeIRR (s_cashFlows fin),
             breakEvenPeriod = computeBreakEven (map cumulativeProfit (s_results fin)) inv0,
             riskIndex = risk_field risk_riskIndex risk,
             profitStdDev = risk_field risk_std risk,
             profitMean = risk_field risk_mean risk,
             cashFlows = s_cashFlows fin\<rparr>\<rparr>)"

definition runAdvancedSimulation ::
  "business table \<Rightarrow> strategy table \<Rightarrow> (nat \<Rightarrow> real) \<Rightarrow> sim_args
     \<Rightarrow> error + simulation_result" where
  "runAdvancedSimulation Business Strategy rnd args =
     (let b = (if id_truthy (businessId args) then findByPk Business (businessId args) else None);
          s = (if id_truthy (strategyId args) then findByPk Strategy (strategyId args) else None)
      in if id_truthy (businessId args) \<and> b = None then Inl BusinessNotFound
         else if id_truthy (strategyId args) \<and> s = None then Inl StrategyNotFound
         else Inr (assemble b args (final_state b s rnd args)))"

section \<open>Reference notions and example inputs\<close>

text \<open>The sum of a list of numbers, added up from \<open>0\<close> in list order.\<close>

definition js_sum :: "jsnum list \<Rightarrow> jsnum" where
  "js_sum xs = foldl js_add (Fin 0) xs"

text \<open>The cash-flow list keeps its seed and has one entry more than there are records.\<close>

definition cashFlows_inv :: "jsnum \<Rightarrow> loop_state \<Rightarrow> bool" where
  "cashFlows_inv cf0 st =
     (length (s_cashFlows st) = Suc (length (s_results st)) \<and> s_cashFlows st ! 0 = cf0)"

definition no_overrides :: overrides where
  "no_overrides =
     \<lparr>ov_revenue = None, ov_cost = None, ov_initialInvestment = None, ov_cashBalance = None,
      ov_growthRate = None, ov_costRate = None, ov_growthRateDelta = None,
      ov_costRateDelta = None, ov_debts = None, ov_oneTimeInvestments = None,
      ov_marketingPerPeriod = None, ov_priceDeltaPercent = None,
      ov_marketingMultiplier = None\<rparr>"

text \<open>
  A run without identifiers: two periods, an initial investment of 1000 and a one-time
  investment of 200 in period 1.
\<close>

definition example_args :: sim_args where
  "example_args =
     \<lparr>businessId = None, strategyId = None, periods = 2,
      arg_overrides = no_overrides\<lparr>ov_initialInvestment := Some (Fin 1000),
        ov_oneTimeInvestments := Some [\<lparr>inv_period = 1, inv_amount = Some (Fin 200)\<rparr>]\<rparr>,
      scenario = ''generic'', stochastic = False\<rparr>"

text \<open>Invariants of the period loop.\<close>

definition cumulative_inv :: "loop_state \<Rightarrow> bool" where
  "cumulative_inv st =
     (s_cumulativeProfit st = js_sum (map profit (s_results st))
      \<and> (\<forall>i < length (s_results st).
            cumulativeProfit (s_results st ! i) = js_sum (map profit (take (Suc i) (s_results st))))
      \<and> (\<forall>r \<in> set (s_results st). profit r = js_sub (revenue r) (cost r)))"

definition last_inv :: "jsnum \<Rightarrow> jsnum \<Rightarrow> loop_state \<Rightarrow> bool" where
  "last_inv r0 c0 st =
     (s_revenue st = (if s_results st = [] then r0 else revenue (last (s_results st)))
      \<and> s_cost st = (if s_results st = [] then c0 else cost (last (s_results st))))"

text \<open>The fields of a period record that the simple engine also produces.\<close>

definition simple_view :: "period_record \<Rightarrow> simple_record" where
  "simple_view r =
     \<lparr>sr_period = period r, sr_revenue = revenue r, sr_cost = cost r, sr_profit = profit r\<rparr>"

text \<open>No marketing, price delta or rate-delta override.\<close>

definition neutral_levers :: "overrides \<Rightarrow> bool" where
  "neutral_levers ov =
     (ov_marketingPerPeriod ov = None \<and> ov_priceDeltaPercent ov = None
      \<and> ov_growthRateDelta ov = None \<and> ov_costRateDelta ov = None)"

text \<open>A business and a strategy stored under identifier 1, and a run on them.\<close>

definition example_business :: business where
  "example_business =
     \<lparr>b_revenue = Fin 1000, b_cost = Fin 500, b_initialInvestment = None,
      b_cashBalance = None, b_debts = None\<rparr>"

definition example_strategy :: strategy where
  "example_strategy = \<lparr>st_growthRate = Fin 0.1, st_costRate = Fin 0.05\<rparr>"

definition example_args_ids :: sim_args where
  "example_args_ids =
     \<lparr>businessId = Some 1, strategyId = Some 1, periods = 2, arg_overrides = no_overrides,
      scenario = ''generic'', stochastic = False\<rparr>"

text \<open>
  The bisection as the claim describes it: the bracket after \<open>k\<close> steps that did not stop
  (low, high and the value at low), its midpoint, and whether the loop stops there.
\<close>

fun bracket :: "jsnum list \<Rightarrow> nat \<Rightarrow> jsnum \<times> jsnum \<times> jsnum" where
  "bracket cfs 0 = (guessLow_default, guessHigh_default, npv cfs guessLow_default)"
| "bracket cfs (Suc k) =
     (case bracket cfs k of
        (low, high, fLow) \<Rightarrow>
          (let mid = js_div (js_add low high) (Fin 2); fMid = npv cfs mid
           in if js_le (js_mul fLow fMid) (Fin 0) then (low, mid, fLow) else (mid, high, fMid)))"

definition midpoint :: "jsnum list \<Rightarrow> nat \<Rightarrow> jsnum" where
  "midpoint cfs k = (case bracket cfs k of (low, high, fLow) \<Rightarrow> js_div (js_add low high) (Fin 2))"

definition converged :: "jsnum list \<Rightarrow> nat \<Rightarrow> bool" where
  "converged cfs k = js_lt (Math_abs (npv cfs (midpoint cfs k))) tol_default"

text \<open>A debt of 1000 over four periods at rate 0, and a run of two periods that carries it.\<close>

definition zero_rate_debt :: raw_debt where
  "zero_rate_debt =
     \<lparr>rd_principal = Some (Fin 1000), rd_amount = None, rd_annualRate = Some (Fin 0),
      rd_rate = None, rd_periodsToRepay = Some 4, rd_term = None, rd_startPeriod = Some 1\<rparr>"

definition zero_rate_args :: sim_args where
  "zero_rate_args =
     \<lparr>businessId = None, strategyId = None, periods = 2,
      arg_overrides = no_overrides\<lparr>ov_debts := Some [zero_rate_debt]\<rparr>,
      scenario = ''generic'', stochastic = False\<rparr>"

text \<open>
  Debts on which the amortizer is sound: finite terms, a positive rate and
  \<open>0 \<le> remaining \<le> principal\<close>; and what it keeps from one record's snapshot to the next.
\<close>

definition sound_debt :: "debt \<Rightarrow> bool" where
  "sound_debt d =
     (case principal d of
        Fin P \<Rightarrow>
          (case annualRate d of
             Fin r \<Rightarrow> (case remaining d of Fin R \<Rightarrow> 0 < r \<and> 0 \<le> R \<and> R \<le> P | _ \<Rightarrow> False)
           | _ \<Rightarrow> False)
      | _ \<Rightarrow> False)"

definition snapshot :: "debt \<Rightarrow> debt_snapshot" where
  "snapshot d = \<lparr>ds_remaining = remaining d, ds_principal = principal d\<rparr>"

definition no_increase :: "debt_snapshot \<Rightarrow> debt_snapshot \<Rightarrow> bool" where
  "no_increase a b =
     (ds_principal b = ds_principal a \<and> js_ge (ds_remaining b) (Fin 0)
      \<and> js_le (ds_remaining b) (ds_remaining a))"

definition debts_inv :: "loop_state \<Rightarrow> bool" where
  "debts_inv st =
     (list_all sound_debt (s_debts st)
      \<and> (s_results st \<noteq> [] \<longrightarrow> debts (last (s_results st)) = map snapshot (s_debts st))
      \<and> (\<forall>i. Suc i < length (s_results st) \<longrightarrow>
            list_all2 no_increase (debts (s_results st ! i)) (debts (s_results st ! Suc i))))"

section \<open>Properties of the KPI calculators\<close>

text \<open>
  C2, as the claim states it, fails: a negative \<open>initialInvestment\<close> is truthy and is
  not \<open>=== 0\<close>, so \<open>computeROI\<close> divides by it and returns the quotient.
\<close>

theorem computeROI_negative_counterexample:
  "js_lt (Fin (- 500)) (Fin 0) \<and> computeROI (Fin 1000) (Fin (- 500)) = Some (Fin (- 2))"
  by (simp add: computeROI_def truthy_def js_eq_def)

text \<open>
  C2 (amended): \<open>computeROI\<close> returns null exactly when \<open>initialInvestment\<close> is zero
  (or \<open>NaN\<close>) and \<open>totalNetProfit / initialInvestment\<close> otherwise, also for a negative
  investment; \<open>computeBreakEven\<close> returns null whenever \<open>initialInvestment\<close> is zero,
  negative or \<open>NaN\<close>. Neither raises.
\<close>

theorem degenerate_investment:
  "computeROI tnp inv0 =
     (if inv0 = Fin 0 \<or> inv0 = NaN then None else Some (js_div tnp inv0))
   \<and> (js_le inv0 (Fin 0) \<or> inv0 = NaN \<longrightarrow> computeBreakEven cps inv0 = None)"
  by (auto simp: computeROI_def computeBreakEven_def truthy_def js_eq_def)

theorem degenerate_investment_witness:
  "js_le (Fin (- 500)) (Fin 0)
   \<and> computeBreakEven [Fin 100, Fin 250, Fin 600] (Fin (- 500)) = None
   \<and> computeROI (Fin 1000) (Fin 0) = None
   \<and> computeROI (Fin 1000) (Fin 500) = Some (Fin 2)"
  using degenerate_investment [of "Fin 1000" "Fin 0" "[]"]
        degenerate_investment [of "Fin 1000" "Fin 500" "[]"]
        degenerate_investment [of "Fin 1000" "Fin (- 500)" "[Fin 100, Fin 250, Fin 600]"]
  by simp

text \<open>
  C3: on the empty list \<open>computeRiskIndex\<close> leaves through its early exit with the bare
  number \<open>0\<close>, not with the object \<open>{std: 0, mean: 0, riskIndex: 0}\<close>; the three
  properties the engine then reads from it are undefined.
\<close>

theorem computeRiskIndex_empty_is_number:
  "computeRiskIndex [] = RiskNumber (Fin 0)
   \<and> risk_field risk_riskIndex (computeRiskIndex []) = None
   \<and> risk_field risk_std (computeRiskIndex []) = None
   \<and> risk_field risk_mean (computeRiskIndex []) = None"
  by (simp add: computeRiskIndex_def)

text \<open>On every other list the result is the object, with \<open>riskIndex\<close> equal to \<open>std\<close>.\<close>

lemma computeRiskIndex_nonempty:
  "profits \<noteq> [] \<Longrightarrow>
     \<exists>r. computeRiskIndex profits = RiskObject r \<and> risk_riskIndex r = risk_std r"
  by (simp add: computeRiskIndex_def Let_def)

lemma computeRiskIndex_constant_example:
  "computeRiskIndex [Fin 10, Fin 10, Fin 10] =
     RiskObject \<lparr>risk_std = Fin 0, risk_mean = Fin 10, risk_riskIndex = Fin 0\<rparr>"
  by (simp add: computeRiskIndex_def Let_def js_sub_def)

section \<open>The period loop\<close>

lemma period_step_record:
  "\<exists>r. s_results (period_step e t st) = s_results st @ [r]
       \<and> period r = t
       \<and> revenue r = s_revenue (period_step e t st)
       \<and> cost r = s_cost (period_step e t st)
       \<and> profit r = js_sub (revenue r) (cost r)
       \<and> cumulativeProfit r = js_add (s_cumulativeProfit st) (profit r)
       \<and> s_cumulativeProfit (period_step e t st) = cumulativeProfit r
       \<and> s_cashFlows (period_step e t st) = s_cashFlows st @ [netCashFlow r]"
  by (simp add: period_step_def Let_def split: prod.splits)

lemma period_loop_invariant:
  assumes "Q st" and "\<And>t s. Q s \<Longrightarrow> Q (period_step e t s)"
  shows "Q (period_loop e n t st)"
  using assms
proof (induction e n t st rule: period_loop.induct)
  case (1 e n t st)
  show ?case
  proof (cases "t \<le> n")
    case True
    have "Q (period_step e t st)"
      by (rule "1.prems"(2)) (rule "1.prems"(1))
    then have "Q (period_loop e n (t + 1) (period_step e t st))"
      by (rule "1.IH" [OF True _ "1.prems"(2)])
    then show ?thesis
      using True by (subst period_loop.simps) simp
  next
    case False
    with "1.prems"(1) show ?thesis by (subst period_loop.simps) simp
  qed
qed


lemma period_loop_periods:
  "map period (s_results (period_loop e n t st)) = map period (s_results st) @ [t..n]"
proof (induction e n t st rule: period_loop.induct)
  case (1 e n t st)
  show ?case
  proof (cases "t \<le> n")
    case True
    obtain r where r: "s_results (period_step e t st) = s_results st @ [r]" "period r = t"
      using period_step_record [of e t st] by blast
    have "map period (s_results (period_loop e n t st))
          = map period (s_results (period_step e t st)) @ [t + 1..n]"
      using True "1.IH" by (subst period_loop.simps) simp
    also have "\<dots> = map period (s_results st) @ [t..n]"
      using True r by (simp add: upto_rec1)
    finally show ?thesis .
  next
    case False
    then show ?thesis by (subst period_loop.simps) simp
  qed
qed

lemma cashFlows_inv_step: "cashFlows_inv cf0 s \<Longrightarrow> cashFlows_inv cf0 (period_step e t s)"
proof -
  assume a: "cashFlows_inv cf0 s"
  obtain r where r: "s_results (period_step e t s) = s_results s @ [r]"
      "s_cashFlows (period_step e t s) = s_cashFlows s @ [netCashFlow r]"
    using period_step_record [of e t s] by blast
  show ?thesis
    using a by (simp add: cashFlows_inv_def r nth_append)
qed

lemma cashFlows_inv_final:
  "cashFlows_inv (js_neg (initialInvestment b (arg_overrides args))) (final_state b s rnd args)"
  unfolding final_state_def
proof (rule period_loop_invariant)
  show "cashFlows_inv (js_neg (initialInvestment b (arg_overrides args)))
          (init_state b (arg_overrides args))"
    by (simp add: cashFlows_inv_def init_state_def)
qed (rule cashFlows_inv_step)

lemma final_state_periods:
  "map period (s_results (final_state b s rnd args)) = [1..periods args]"
  by (simp add: final_state_def period_loop_periods init_state_def)


lemma run_Inr:
  "runAdvancedSimulation Business Strategy rnd args = Inr res \<Longrightarrow>
     \<exists>b s. res = assemble b args (final_state b s rnd args)
          \<and> (b = None \<longleftrightarrow> \<not> id_truthy (businessId args))
          \<and> (s = None \<longleftrightarrow> \<not> id_truthy (strategyId args))
          \<and> (id_truthy (businessId args) \<longrightarrow> b = findByPk Business (businessId args))
          \<and> (id_truthy (strategyId args) \<longrightarrow> s = findByPk Strategy (strategyId args))"
  by (auto simp: runAdvancedSimulation_def Let_def split: if_splits)

text \<open>
  C9: a run over \<open>n \<ge> 0\<close> periods returns exactly \<open>n\<close> records, the record at index
  \<open>p\<close> carries period \<open>p + 1\<close>, the cash-flow list has \<open>n + 1\<close> entries and its first
  entry is the negated initial investment.
\<close>

theorem results_and_cashFlows_shape:
  assumes "runAdvancedSimulation Business Strategy rnd args = Inr res"
      and "0 \<le> periods args"
  shows "int (length (results res)) = periods args
       \<and> (\<forall>p < length (results res). period (results res ! p) = int p + 1)
       \<and> int (length (cashFlows (res_kpis res))) = periods args + 1
       \<and> cashFlows (res_kpis res) ! 0 = js_neg (m_initialInvestment (res_meta res))"
proof -
  obtain b s where res: "res = assemble b args (final_state b s rnd args)"
    using run_Inr [OF assms(1)] by blast
  let ?fin = "final_state b s rnd args"
  have per: "map period (results res) = [1..periods args]"
    by (simp add: res assemble_def Let_def final_state_periods)
  have len: "length (results res) = nat (periods args)"
    using arg_cong [OF per, of length] by simp
  have nth: "period (results res ! p) = int p + 1" if "p < length (results res)" for p
  proof -
    have "period (results res ! p) = map period (results res) ! p"
      using that by simp
    also have "\<dots> = 1 + int p"
      using that len unfolding per by (subst nth_upto) simp_all
    finally show ?thesis by simp
  qed
  have cf: "cashFlows_inv (js_neg (initialInvestment b (arg_overrides args))) ?fin"
    by (rule cashFlows_inv_final)
  have cfl: "length (cashFlows (res_kpis res)) = Suc (length (results res))"
    using cf by (simp add: res assemble_def Let_def cashFlows_inv_def)
  have cf0: "cashFlows (res_kpis res) ! 0 = js_neg (m_initialInvestment (res_meta res))"
    using cf by (simp add: res assemble_def Let_def cashFlows_inv_def)
  show ?thesis
    using len nth cfl cf0 assms(2) by simp
qed

lemma example_run:
  "runAdvancedSimulation Map.empty Map.empty (\<lambda>_. 0) example_args =
     Inr (assemble None example_args (final_state None None (\<lambda>_. 0) example_args))"
  by (simp add: runAdvancedSimulation_def id_truthy_def example_args_def)

theorem results_and_cashFlows_shape_witness:
  "\<exists>res. runAdvancedSimulation Map.empty Map.empty (\<lambda>_. 0) example_args = Inr res
     \<and> 0 \<le> periods example_args
     \<and> length (results res) = 2
     \<and> map period (results res) = [1, 2]
     \<and> length (cashFlows (res_kpis res)) = 3
     \<and> cashFlows (res_kpis res) ! 0 = Fin (- 1000)"
proof -
  let ?res = "assemble None example_args (final_state None None (\<lambda>_. 0) example_args)"
  have p: "periods example_args = 2"
    by (simp add: example_args_def)
  have m: "m_initialInvestment (res_meta ?res) = Fin 1000"
    by (simp add: assemble_def Let_def initialInvestment_def nullish_else_def example_args_def no_overrides_def)
  have s: "int (length (results ?res)) = 2
       \<and> (\<forall>p < length (results ?res). period (results ?res ! p) = int p + 1)
       \<and> int (length (cashFlows (res_kpis ?res))) = 3
       \<and> cashFlows (res_kpis ?res) ! 0 = Fin (- 1000)"
    using results_and_cashFlows_shape [OF example_run] p m by simp
  then have l: "length (results ?res) = 2" by simp
  have "map period (results ?res) = [1, 2]"
    using s l by (intro nth_equalityI) (auto simp: less_Suc_eq numeral_2_eq_2)
  then show ?thesis
    using example_run s p by (intro exI [of _ ?res]) simp
qed

lemma cumulative_inv_step:
  assumes "cumulative_inv s"
  shows "cumulative_inv (period_step e t s)"
proof -
  obtain r where r: "s_results (period_step e t s) = s_results s @ [r]"
      "profit r = js_sub (revenue r) (cost r)"
      "cumulativeProfit r = js_add (s_cumulativeProfit s) (profit r)"
      "s_cumulativeProfit (period_step e t s) = cumulativeProfit r"
    using period_step_record [of e t s] by blast
  have tot: "cumulativeProfit r = js_sum (map profit (s_results s @ [r]))"
    using assms by (simp add: r(3) cumulative_inv_def js_sum_def)
  have nth: "cumulativeProfit ((s_results s @ [r]) ! i)
             = js_sum (map profit (take (Suc i) (s_results s @ [r])))"
    if "i < Suc (length (s_results s))" for i
  proof (cases "i < length (s_results s)")
    case True
    then show ?thesis
      using assms by (simp add: cumulative_inv_def nth_append)
  next
    case False
    with that have "i = length (s_results s)" by simp
    then show ?thesis
      using tot by (simp add: nth_append)
  qed
  have prof: "\<forall>x \<in> set (s_results s @ [r]). profit x = js_sub (revenue x) (cost x)"
    using assms r(2) by (auto simp: cumulative_inv_def)
  show ?thesis
    unfolding cumulative_inv_def r(1) r(4)
    using tot nth prof by simp
qed

lemma cumulative_inv_final: "cumulative_inv (final_state b s rnd args)"
  unfolding final_state_def
proof (rule period_loop_invariant)
  show "cumulative_inv (init_state b (arg_overrides args))"
    by (simp add: cumulative_inv_def init_state_def js_sum_def)
qed (rule cumulative_inv_step)

lemma foldl_add_profit:
  "foldl (\<lambda>acc r. js_add acc (profit r)) a rs = foldl js_add a (map profit rs)"
  by (induction rs arbitrary: a) simp_all

text \<open>
  C8: in every run, the \<open>cumulativeProfit\<close> of the record of period \<open>t\<close> is the sum of the
  \<open>profit\<close> fields of periods \<open>1..t\<close>, \<open>kpis.totalNetProfit\<close> is the sum of \<open>profit\<close> over
  all periods, and \<open>profit\<close> is \<open>revenue - cost\<close>, before investments and debt payments.
\<close>

theorem cumulativeProfit_is_running_sum:
  assumes "runAdvancedSimulation Business Strategy rnd args = Inr res"
  shows "(\<forall>i < length (results res).
            cumulativeProfit (results res ! i) = js_sum (map profit (take (Suc i) (results res))))
       \<and> totalNetProfit (res_kpis res) = js_sum (map profit (results res))
       \<and> (\<forall>r \<in> set (results res). profit r = js_sub (revenue r) (cost r))"
proof -
  obtain b s where res: "res = assemble b args (final_state b s rnd args)"
    using run_Inr [OF assms] by blast
  have inv: "cumulative_inv (final_state b s rnd args)"
    by (rule cumulative_inv_final)
  have r: "results res = s_results (final_state b s rnd args)"
    by (simp add: res assemble_def Let_def)
  have t: "totalNetProfit (res_kpis res) = js_sum (map profit (results res))"
    by (simp add: res assemble_def Let_def js_sum_def foldl_add_profit)
  show ?thesis
    using inv t unfolding r cumulative_inv_def by simp
qed

lemma example_profits:
  "map profit (s_results (final_state None None (\<lambda>_. 0) example_args)) = [Fin 540, Fin (5823 / 10)]"
  by code_simp

lemma example_netCashFlows:
  "map netCashFlow (s_results (final_state None None (\<lambda>_. 0) example_args)) = [Fin 340, Fin (5823 / 10)]"
  by code_simp

text \<open>
  In the example run the total is 1122.3, while the net cash flows add up to 922.3.
\<close>

theorem cumulativeProfit_is_running_sum_witness:
  "\<exists>res. runAdvancedSimulation Map.empty Map.empty (\<lambda>_. 0) example_args = Inr res
     \<and> totalNetProfit (res_kpis res) = Fin (11223 / 10)
     \<and> js_sum (map netCashFlow (results res)) = Fin (9223 / 10)"
proof -
  let ?res = "assemble None example_args (final_state None None (\<lambda>_. 0) example_args)"
  have r: "results ?res = s_results (final_state None None (\<lambda>_. 0) example_args)"
    by (simp add: assemble_def Let_def)
  have "totalNetProfit (res_kpis ?res) = js_sum (map profit (results ?res))"
    using cumulativeProfit_is_running_sum [OF example_run] by simp
  then have "totalNetProfit (res_kpis ?res) = Fin (11223 / 10)"
    by (simp add: r example_profits js_sum_def)
  moreover have "js_sum (map netCashFlow (results ?res)) = Fin (9223 / 10)"
    by (simp add: r example_netCashFlows js_sum_def)
  ultimately show ?thesis
    using example_run by (intro exI [of _ ?res]) simp
qed

lemma last_inv_step:
  assumes "last_inv r0 c0 s"
  shows "last_inv r0 c0 (period_step e t s)"
proof -
  obtain r where r: "s_results (period_step e t s) = s_results s @ [r]"
      "revenue r = s_revenue (period_step e t s)"
      "cost r = s_cost (period_step e t s)"
    using period_step_record [of e t s] by blast
  show ?thesis
    by (simp add: last_inv_def r(1) r(2) [symmetric] r(3) [symmetric])
qed

lemma last_inv_final:
  "last_inv (startRevenue b (arg_overrides args)) (startCost b (arg_overrides args))
     (final_state b s rnd args)"
  unfolding final_state_def
proof (rule period_loop_invariant)
  show "last_inv (startRevenue b (arg_overrides args)) (startCost b (arg_overrides args))
          (init_state b (arg_overrides args))"
    by (simp add: last_inv_def init_state_def)
qed (rule last_inv_step)

text \<open>
  C10: without a business identifier and without \<open>overrides.revenue\<close> (resp.
  \<open>overrides.cost\<close>), \<open>meta.startingRevenue\<close> (resp. \<open>meta.startingCost\<close>) is the working
  revenue (resp. cost) as the last period left it, which is the value recorded for the last
  period, and the default 1000 (resp. 500) only when no period ran.
\<close>

theorem meta_starting_values_are_final:
  assumes "runAdvancedSimulation Business Strategy rnd args = Inr res"
      and "businessId args = None"
  shows "(ov_revenue (arg_overrides args) = None \<longrightarrow>
            startingRevenue (res_meta res)
              = (if results res = [] then Fin 1000 else revenue (last (results res))))
       \<and> (ov_cost (arg_overrides args) = None \<longrightarrow>
            startingCost (res_meta res)
              = (if results res = [] then Fin 500 else cost (last (results res))))"
proof -
  obtain b s where res: "res = assemble b args (final_state b s rnd args)"
      and b: "b = None \<longleftrightarrow> \<not> id_truthy (businessId args)"
    using run_Inr [OF assms(1)] by blast
  have bn: "b = None"
    using b assms(2) by (simp add: id_truthy_def)
  have inv: "last_inv (startRevenue b (arg_overrides args)) (startCost b (arg_overrides args))
               (final_state b s rnd args)"
    by (rule last_inv_final)
  have r: "results res = s_results (final_state b s rnd args)"
    by (simp add: res assemble_def Let_def)
  have rev: "startingRevenue (res_meta res)
               = (if results res = [] then Fin 1000 else revenue (last (results res)))"
    if "ov_revenue (arg_overrides args) = None"
    using inv that unfolding r
    by (simp add: res bn assemble_def Let_def last_inv_def nullish_else_def startRevenue_def or_else_def)
  have cst: "startingCost (res_meta res)
               = (if results res = [] then Fin 500 else cost (last (results res)))"
    if "ov_cost (arg_overrides args) = None"
    using inv that unfolding r
    by (simp add: res bn assemble_def Let_def last_inv_def nullish_else_def startCost_def or_else_def)
  show ?thesis
    using rev cst by blast
qed

lemma example_last_record:
  "map (\<lambda>r. (revenue r, cost r)) (s_results (final_state None None (\<lambda>_. 0) example_args))
     = [(Fin 1050, Fin 510), (Fin (2205 / 2), Fin (2601 / 5))]"
  by code_simp

text \<open>
  The example run starts from 1000 and 500 (period 1 has revenue 1050 and cost 510) and
  reports 1102.5 and 520.2 as its starting values.
\<close>

theorem meta_starting_values_are_final_witness:
  "\<exists>res. runAdvancedSimulation Map.empty Map.empty (\<lambda>_. 0) example_args = Inr res
     \<and> businessId example_args = None
     \<and> ov_revenue (arg_overrides example_args) = None
     \<and> ov_cost (arg_overrides example_args) = None
     \<and> map revenue (results res) = [Fin 1050, Fin (2205 / 2)]
     \<and> map cost (results res) = [Fin 510, Fin (2601 / 5)]
     \<and> startingRevenue (res_meta res) = Fin (2205 / 2)
     \<and> startingCost (res_meta res) = Fin (2601 / 5)"
proof -
  let ?res = "assemble None example_args (final_state None None (\<lambda>_. 0) example_args)"
  have r: "results ?res = s_results (final_state None None (\<lambda>_. 0) example_args)"
    by (simp add: assemble_def Let_def)
  have a: "businessId example_args = None" "ov_revenue (arg_overrides example_args) = None"
      "ov_cost (arg_overrides example_args) = None"
    by (simp_all add: example_args_def no_overrides_def)
  have m: "map revenue (results ?res) = [Fin 1050, Fin (2205 / 2)]"
      "map cost (results ?res) = [Fin 510, Fin (2601 / 5)]"
    using arg_cong [OF example_last_record, of "map fst"]
          arg_cong [OF example_last_record, of "map snd"]
    by (simp_all add: r comp_def)
  then have ne: "results ?res \<noteq> []" by auto
  have l: "revenue (last (results ?res)) = Fin (2205 / 2)" "cost (last (results ?res)) = Fin (2601 / 5)"
    using m ne by (simp_all add: last_map [symmetric])
  have "startingRevenue (res_meta ?res) = Fin (2205 / 2) \<and> startingCost (res_meta ?res) = Fin (2601 / 5)"
    using meta_starting_values_are_final [OF example_run a(1)] a(2,3) ne l by simp
  then show ?thesis
    using example_run a m by (intro exI [of _ ?res]) simp
qed

section \<open>Determinism\<close>

lemma period_step_random:
  "\<not> e_stochastic e \<Longrightarrow> period_step (e\<lparr>e_random := rnd'\<rparr>) t st = period_step e t st"
  by (simp add: period_step_def)

lemma period_loop_random:
  "\<not> e_stochastic e \<Longrightarrow> period_loop (e\<lparr>e_random := rnd'\<rparr>) n t st = period_loop e n t st"
proof (induction e n t st rule: period_loop.induct)
  case (1 e n t st)
  show ?case
  proof (cases "t \<le> n")
    case True
    have "period_loop (e\<lparr>e_random := rnd'\<rparr>) n t st
          = period_loop (e\<lparr>e_random := rnd'\<rparr>) n (t + 1) (period_step (e\<lparr>e_random := rnd'\<rparr>) t st)"
      using True by (subst period_loop.simps) simp
    also have "\<dots> = period_loop (e\<lparr>e_random := rnd'\<rparr>) n (t + 1) (period_step e t st)"
      using "1.prems" by (simp add: period_step_random)
    also have "\<dots> = period_loop e n (t + 1) (period_step e t st)"
      using True "1.prems" by (rule "1.IH")
    also have "\<dots> = period_loop e n t st"
      using True by (subst (2) period_loop.simps) simp
    finally show ?thesis .
  next
    case False
    then show ?thesis
      by (subst period_loop.simps, subst (2) period_loop.simps) simp
  qed
qed

lemma final_state_random:
  assumes "stochastic args = False"
  shows "final_state b s rnd args = final_state b s rnd' args"
proof -
  have e: "loop_env_of s rnd' args = (loop_env_of s rnd args)\<lparr>e_random := rnd'\<rparr>"
    by (simp add: loop_env_of_def)
  have "\<not> e_stochastic (loop_env_of s rnd args)"
    using assms by (simp add: loop_env_of_def)
  then show ?thesis
    unfolding final_state_def e by (simp add: period_loop_random)
qed

text \<open>
  C7: with \<open>stochastic = false\<close> the result of a run is a function of its resolved inputs
  alone: two runs on the same tables and arguments return the same document, whatever the
  random source would have drawn.
\<close>

theorem non_stochastic_run_deterministic:
  assumes "stochastic args = False"
  shows "runAdvancedSimulation Business Strategy rnd args
         = runAdvancedSimulation Business Strategy rnd' args"
  by (simp add: runAdvancedSimulation_def Let_def final_state_random [OF assms, of _ _ rnd rnd'])

theorem non_stochastic_run_deterministic_witness:
  "stochastic example_args = False
   \<and> runAdvancedSimulation Map.empty Map.empty (\<lambda>_. 0) example_args
     = runAdvancedSimulation Map.empty Map.empty (\<lambda>k. 1 / (2 + real k)) example_args"
  using non_stochastic_run_deterministic [of example_args Map.empty Map.empty "\<lambda>_. 0" "\<lambda>k. 1 / (2 + real k)"]
  by (simp add: example_args_def)

text \<open>In stochastic mode the draws do reach the result.\<close>

lemma stochastic_run_depends_on_draws:
  "map revenue (s_results (final_state None None (\<lambda>_. 0) (example_args\<lparr>stochastic := True\<rparr>)))
   \<noteq> map revenue (s_results (final_state None None (\<lambda>_. 1 / 2) (example_args\<lparr>stochastic := True\<rparr>)))"
  by code_simp

section \<open>The advanced engine refines the simple one\<close>

lemma js_add_zero [simp]: "js_add x (Fin 0) = x"
  by (cases x) simp_all

lemma js_mul_one [simp]: "js_mul x (Fin 1) = x"
  by (cases x) (simp_all add: inf_of_def)

lemma sDefaults_generic:
  "sDefaults ''generic'' = \<lparr>growthRateBoost = Fin 0, costVolatility = Fin 0.1\<rparr>"
  by (simp add: sDefaults_def scenarioDefaults_def)

lemma neutral_step:
  assumes "neutral_levers (e_overrides e)" and "\<not> e_stochastic e"
      and "growthRateBoost (e_sDefaults e) = Fin 0"
  shows "s_revenue (period_step e t st) = js_mul (s_revenue st) (js_add (Fin 1) (e_growthRateBase e))"
    and "s_cost (period_step e t st) = js_mul (s_cost st) (js_add (Fin 1) (e_costRateBase e))"
  using assms
  by (simp_all add: period_step_def Let_def neutral_levers_def nullish_else_def or_else_def
        truthy_def marketingPerPeriod_def priceDeltaPercent_def js_gt_def split: prod.splits)

lemma neutral_loop:
  assumes "neutral_levers (e_overrides e)" and "\<not> e_stochastic e"
      and "growthRateBoost (e_sDefaults e) = Fin 0"
      and "e_growthRateBase e = st_growthRate strat" and "e_costRateBase e = st_costRate strat"
  shows "map simple_view (s_results (period_loop e n t st))
         = simple_loop strat n t (s_revenue st) (s_cost st) (map simple_view (s_results st))"
  using assms
proof (induction e n t st rule: period_loop.induct)
  case (1 e n t st)
  show ?case
  proof (cases "t \<le> n")
    case True
    let ?st' = "period_step e t st"
    obtain r where r: "s_results ?st' = s_results st @ [r]" "period r = t"
        "revenue r = s_revenue ?st'" "cost r = s_cost ?st'"
        "profit r = js_sub (revenue r) (cost r)"
      using period_step_record [of e t st] by blast
    have rv: "s_revenue ?st' = js_mul (s_revenue st) (js_add (Fin 1) (st_growthRate strat))"
      using neutral_step(1) [OF "1.prems"(1-3)] "1.prems"(4) by simp
    have cs: "s_cost ?st' = js_mul (s_cost st) (js_add (Fin 1) (st_costRate strat))"
      using neutral_step(2) [OF "1.prems"(1-3)] "1.prems"(5) by simp
    have "map simple_view (s_results (period_loop e n t st))
          = map simple_view (s_results (period_loop e n (t + 1) ?st'))"
      using True by (subst period_loop.simps) simp
    also have "\<dots> = simple_loop strat n (t + 1) (s_revenue ?st') (s_cost ?st')
                        (map simple_view (s_results ?st'))"
      using True "1.prems" by (rule "1.IH")
    also have "\<dots> = simple_loop strat n t (s_revenue st) (s_cost st)
                        (map simple_view (s_results st))"
      using True
      by (subst (2) simple_loop.simps) (simp add: Let_def r rv [symmetric] cs [symmetric] simple_view_def)
    finally show ?thesis .
  next
    case False
    then show ?thesis
      by (subst period_loop.simps, subst simple_loop.simps) simp
  qed
qed

text \<open>
  C5: on a business and a strategy that both engines resolve, the advanced engine with
  \<open>stochastic = false\<close>, scenario \<open>generic\<close> and no marketing, price-delta or rate-delta
  override produces the period, revenue, cost and profit sequence of \<open>runSimulation\<close>.
  Debts and one-time investments never enter these four fields, so they need not be absent.
\<close>

theorem advanced_refines_simple:
  assumes "Business bid = Some b" and "Strategy sid = Some s" and "bid \<noteq> 0" and "sid \<noteq> 0"
      and "businessId args = Some bid" and "strategyId args = Some sid"
      and "stochastic args = False" and "scenario args = ''generic''"
      and "neutral_levers (arg_overrides args)"
  shows "\<exists>res. runAdvancedSimulation Business Strategy rnd args = Inr res
           \<and> runSimulation Business Strategy (Some bid) (Some sid) (periods args)
               = Inr (map simple_view (results res))"
proof -
  let ?e = "loop_env_of (Some s) rnd args"
  let ?fin = "final_state (Some b) (Some s) rnd args"
  have run: "runAdvancedSimulation Business Strategy rnd args = Inr (assemble (Some b) args ?fin)"
    using assms(1-6) by (simp add: runAdvancedSimulation_def Let_def id_truthy_def findByPk_def)
  have simple: "runSimulation Business Strategy (Some bid) (Some sid) (periods args)
                = Inr (simple_loop s (periods args) 1 (b_revenue b) (b_cost b) [])"
    using assms(1,2) by (simp add: runSimulation_def findByPk_def)
  have "map simple_view (s_results ?fin)
        = simple_loop s (periods args) 1
            (s_revenue (init_state (Some b) (arg_overrides args)))
            (s_cost (init_state (Some b) (arg_overrides args)))
            (map simple_view (s_results (init_state (Some b) (arg_overrides args))))"
    unfolding final_state_def
    using assms(7-9)
    by (intro neutral_loop) (simp_all add: loop_env_of_def sDefaults_generic growthRateBase_def costRateBase_def)
  then have "map simple_view (results (assemble (Some b) args ?fin))
             = simple_loop s (periods args) 1 (b_revenue b) (b_cost b) []"
    by (simp add: assemble_def Let_def init_state_def startRevenue_def startCost_def)
  then show ?thesis
    using run simple by simp
qed

lemma example_simple_run:
  "simple_loop example_strategy 2 1 (Fin 1000) (Fin 500) [] =
     [\<lparr>sr_period = 1, sr_revenue = Fin 1100, sr_cost = Fin 525, sr_profit = Fin 575\<rparr>,
      \<lparr>sr_period = 2, sr_revenue = Fin 1210, sr_cost = Fin (2205 / 4), sr_profit = Fin (2635 / 4)\<rparr>]"
  by code_simp

theorem advanced_refines_simple_witness:
  "\<exists>res. runAdvancedSimulation [1 \<mapsto> example_business] [1 \<mapsto> example_strategy] (\<lambda>_. 0)
            example_args_ids = Inr res
     \<and> runSimulation [1 \<mapsto> example_business] [1 \<mapsto> example_strategy] (Some 1) (Some 1) 2
          = Inr (map simple_view (results res))
     \<and> map simple_view (results res) =
         [\<lparr>sr_period = 1, sr_revenue = Fin 1100, sr_cost = Fin 525, sr_profit = Fin 575\<rparr>,
          \<lparr>sr_period = 2, sr_revenue = Fin 1210, sr_cost = Fin (2205 / 4),
            sr_profit = Fin (2635 / 4)\<rparr>]"
proof -
  have s: "runSimulation [1 \<mapsto> example_business] [1 \<mapsto> example_strategy] (Some 1) (Some 1) 2
           = Inr (simple_loop example_strategy 2 1 (Fin 1000) (Fin 500) [])"
    by (simp add: runSimulation_def findByPk_def example_business_def)
  obtain res where
    "runAdvancedSimulation [1 \<mapsto> example_business] [1 \<mapsto> example_strategy] (\<lambda>_. 0)
       example_args_ids = Inr res"
    "runSimulation [1 \<mapsto> example_business] [1 \<mapsto> example_strategy] (Some 1) (Some 1)
       (periods example_args_ids) = Inr (map simple_view (results res))"
    using advanced_refines_simple
      [of "[1 \<mapsto> example_business]" 1 example_business "[1 \<mapsto> example_strategy]" 1
          example_strategy example_args_ids "\<lambda>_. 0"]
    by (auto simp: example_args_ids_def neutral_levers_def no_overrides_def)
  then show ?thesis
    using s by (intro exI [of _ res]) (simp add: example_args_ids_def example_simple_run)
qed

section \<open>Override levers\<close>

text \<open>
  C1, as the claim states it, fails. With a business record resolved, \<open>overrides.revenue\<close> is
  never read: the loop starts from the business's 1000 and period 1 has revenue 1100, not
  3300. With a strategy resolved, \<open>overrides.growthRate\<close> is never read either. And without a
  business, an override revenue of \<open>0\<close> is falsy under \<open>||\<close> and gives way to the default.
\<close>

theorem override_ignored_counterexample:
  "ov_revenue (no_overrides\<lparr>ov_revenue := Some (Fin 3000)\<rparr>) = Some (Fin 3000)
   \<and> s_revenue (init_state (Some example_business) (no_overrides\<lparr>ov_revenue := Some (Fin 3000)\<rparr>))
       = Fin 1000
   \<and> map revenue (s_results (final_state (Some example_business) (Some example_strategy) (\<lambda>_. 0)
         (example_args_ids\<lparr>arg_overrides := no_overrides\<lparr>ov_revenue := Some (Fin 3000)\<rparr>\<rparr>)))
       = [Fin 1100, Fin 1210]
   \<and> ov_revenue (no_overrides\<lparr>ov_revenue := Some (Fin 0)\<rparr>) = Some (Fin 0)
   \<and> s_revenue (init_state None (no_overrides\<lparr>ov_revenue := Some (Fin 0)\<rparr>)) = Fin 1000
   \<and> e_growthRateBase (loop_env_of (Some example_strategy) (\<lambda>_. 0)
         (example_args_ids\<lparr>arg_overrides := no_overrides\<lparr>ov_growthRate := Some (Fin 0.2)\<rparr>\<rparr>))
       = Fin 0.1"
proof -
  have "map revenue (s_results (final_state (Some example_business) (Some example_strategy) (\<lambda>_. 0)
         (example_args_ids\<lparr>arg_overrides := no_overrides\<lparr>ov_revenue := Some (Fin 3000)\<rparr>\<rparr>)))
       = [Fin 1100, Fin 1210]"
    by code_simp
  then show ?thesis
    by (simp add: init_state_def startRevenue_def or_else_def truthy_def example_business_def
          example_strategy_def loop_env_of_def growthRateBase_def no_overrides_def)
qed

text \<open>
  C1 (amended): \<open>overrides.revenue\<close> and \<open>overrides.cost\<close> are fallbacks for a missing business
  record: without a business, a present and truthy override is the starting value and an absent
  one gives the default (1000, 500); with a business, the starting values are the business's.
  \<open>overrides.growthRate\<close> and \<open>overrides.costRate\<close> are fallbacks for a missing strategy:
  without a strategy, a present override (also \<open>0\<close>) is the rate base and an absent one gives
  the default (0.05, 0.02); with a strategy, the bases are the strategy's.
  \<open>overrides.initialInvestment\<close> and \<open>overrides.cashBalance\<close>, when present, do supersede the
  business's values.
\<close>

theorem override_precedence:
  "(b = None \<and> ov_revenue ov = Some v \<and> truthy v \<longrightarrow> s_revenue (init_state b ov) = v)
   \<and> (b = None \<and> ov_cost ov = Some w \<and> truthy w \<longrightarrow> s_cost (init_state b ov) = w)
   \<and> (b = None \<and> ov_revenue ov = None \<longrightarrow> s_revenue (init_state b ov) = Fin 1000)
   \<and> (b = None \<and> ov_cost ov = None \<longrightarrow> s_cost (init_state b ov) = Fin 500)
   \<and> (b = Some bus \<longrightarrow>
        s_revenue (init_state b ov) = b_revenue bus \<and> s_cost (init_state b ov) = b_cost bus)
   \<and> (s = None \<and> ov_growthRate (arg_overrides args) = Some g \<longrightarrow>
        e_growthRateBase (loop_env_of s rnd args) = g)
   \<and> (s = None \<and> ov_costRate (arg_overrides args) = Some c \<longrightarrow>
        e_costRateBase (loop_env_of s rnd args) = c)
   \<and> (s = None \<and> ov_growthRate (arg_overrides args) = None \<longrightarrow>
        e_growthRateBase (loop_env_of s rnd args) = Fin 0.05)
   \<and> (s = None \<and> ov_costRate (arg_overrides args) = None \<longrightarrow>
        e_costRateBase (loop_env_of s rnd args) = Fin 0.02)
   \<and> (s = Some str \<longrightarrow>
        e_growthRateBase (loop_env_of s rnd args) = st_growthRate str
        \<and> e_costRateBase (loop_env_of s rnd args) = st_costRate str)
   \<and> (ov_initialInvestment ov = Some i \<longrightarrow> initialInvestment b ov = i)
   \<and> (ov_cashBalance ov = Some k \<longrightarrow> s_cash (init_state b ov) = k)"
  by (simp add: init_state_def startRevenue_def startCost_def startCash_def initialInvestment_def
        or_else_def nullish_else_def loop_env_of_def growthRateBase_def costRateBase_def)

theorem override_precedence_witness:
  "truthy (Fin 3000)
   \<and> s_revenue (init_state None (no_overrides\<lparr>ov_revenue := Some (Fin 3000)\<rparr>)) = Fin 3000
   \<and> s_cost (init_state None (no_overrides\<lparr>ov_revenue := Some (Fin 3000)\<rparr>)) = Fin 500
   \<and> s_revenue (init_state (Some example_business) (no_overrides\<lparr>ov_revenue := Some (Fin 3000)\<rparr>))
       = Fin 1000
   \<and> e_growthRateBase (loop_env_of None (\<lambda>_. 0)
         (example_args\<lparr>arg_overrides := no_overrides\<lparr>ov_growthRate := Some (Fin 0)\<rparr>\<rparr>)) = Fin 0
   \<and> e_costRateBase (loop_env_of None (\<lambda>_. 0)
         (example_args\<lparr>arg_overrides := no_overrides\<lparr>ov_growthRate := Some (Fin 0)\<rparr>\<rparr>)) = Fin 0.02"
  using override_precedence
          [of None "no_overrides\<lparr>ov_revenue := Some (Fin 3000)\<rparr>" "Fin 3000" "Fin 0"
              example_business None
              "example_args\<lparr>arg_overrides := no_overrides\<lparr>ov_growthRate := Some (Fin 0)\<rparr>\<rparr>"
              "Fin 0" "\<lambda>_. 0" "Fin 0" example_strategy "Fin 0" "Fin 0"]
        override_precedence
          [of "Some example_business" "no_overrides\<lparr>ov_revenue := Some (Fin 3000)\<rparr>" "Fin 3000"
              "Fin 0" example_business None example_args "Fin 0" "\<lambda>_. 0" "Fin 0"
              example_strategy "Fin 0" "Fin 0"]
  by (simp add: truthy_def no_overrides_def example_business_def)

section \<open>Root finder: when the internal rate of return is undetermined\<close>

lemma bisect_follows_bracket:
  "bracket cfs j = (low, high, fLow) \<Longrightarrow>
     \<exists>i \<le> n. bisect cfs tol_default n low high fLow fHigh = midpoint cfs (j + i)
        \<and> (\<forall>l < i. \<not> converged cfs (j + l))
        \<and> (i < n \<longrightarrow> converged cfs (j + i))"
proof (induction n arbitrary: j low high fLow fHigh)
  case 0
  then show ?case by (simp add: midpoint_def)
next
  case (Suc n)
  let ?mid = "js_div (js_add low high) (Fin 2)"
  let ?fMid = "npv cfs ?mid"
  have mid: "midpoint cfs j = ?mid"
    using Suc.prems by (simp add: midpoint_def)
  show ?case
  proof (cases "converged cfs j")
    case True
    then have "bisect cfs tol_default (Suc n) low high fLow fHigh = midpoint cfs (j + 0)"
      by (simp add: converged_def mid Let_def)
    with True show ?thesis
      by (intro exI [of _ 0]) simp
  next
    case False
    obtain low' high' fLow' fHigh' where
      next_args: "bisect cfs tol_default (Suc n) low high fLow fHigh
                    = bisect cfs tol_default n low' high' fLow' fHigh'"
      and next_bracket: "bracket cfs (Suc j) = (low', high', fLow')"
    proof (cases "js_le (js_mul fLow ?fMid) (Fin 0)")
      case True
      show ?thesis
      proof (rule that)
        show "bisect cfs tol_default (Suc n) low high fLow fHigh
              = bisect cfs tol_default n low ?mid fLow ?fMid"
          using False True by (simp add: converged_def mid Let_def)
        show "bracket cfs (Suc j) = (low, ?mid, fLow)"
          using Suc.prems True by (simp add: Let_def)
      qed
    next
      case nle: False
      show ?thesis
      proof (rule that)
        show "bisect cfs tol_default (Suc n) low high fLow fHigh
              = bisect cfs tol_default n ?mid high ?fMid fHigh"
          using False nle by (simp add: converged_def mid Let_def)
        show "bracket cfs (Suc j) = (?mid, high, ?fMid)"
          using Suc.prems nle by (simp add: Let_def)
      qed
    qed
    from Suc.IH [OF next_bracket, of fHigh'] obtain i where i: "i \<le> n"
        "bisect cfs tol_default n low' high' fLow' fHigh' = midpoint cfs (Suc j + i)"
        "\<forall>l < i. \<not> converged cfs (Suc j + l)"
        "i < n \<longrightarrow> converged cfs (Suc j + i)"
      by blast
    have "\<not> converged cfs (j + l)" if "l < Suc i" for l
    proof (cases l)
      case 0
      with False show ?thesis by simp
    next
      case (Suc l')
      with that i(3) show ?thesis by simp
    qed
    then show ?thesis
      using i next_args by (intro exI [of _ "Suc i"]) simp
  qed
qed

text \<open>
  C6: with the default bounds, \<open>computeIRR\<close> returns null exactly when
  \<open>NPV(low) * NPV(high) > 0\<close>. Otherwise it returns a number: the first bisection midpoint
  whose net present value is below the tolerance in absolute value, or, when 80 steps pass
  without one, the midpoint of the final bracket.
\<close>

theorem computeIRR_null_iff_same_sign:
  "(computeIRR cfs = None
      \<longleftrightarrow> js_gt (js_mul (npv cfs guessLow_default) (npv cfs guessHigh_default)) (Fin 0))
   \<and> (\<not> js_gt (js_mul (npv cfs guessLow_default) (npv cfs guessHigh_default)) (Fin 0) \<longrightarrow>
        (\<exists>k \<le> 80. computeIRR cfs = Some (midpoint cfs k)
            \<and> (\<forall>j < k. \<not> converged cfs j)
            \<and> (k < 80 \<longrightarrow> converged cfs k)))"
proof -
  have iff: "computeIRR cfs = None
      \<longleftrightarrow> js_gt (js_mul (npv cfs guessLow_default) (npv cfs guessHigh_default)) (Fin 0)"
    by (simp add: computeIRR_def computeIRR_with_def Let_def)
  have b0: "bracket cfs 0 = (guessLow_default, guessHigh_default, npv cfs guessLow_default)"
    by simp
  obtain i where i: "i \<le> 80"
      "bisect cfs tol_default 80 guessLow_default guessHigh_default (npv cfs guessLow_default)
         (npv cfs guessHigh_default) = midpoint cfs (0 + i)"
      "\<forall>l < i. \<not> converged cfs (0 + l)" "i < 80 \<longrightarrow> converged cfs (0 + i)"
    using bisect_follows_bracket [OF b0, of 80 "npv cfs guessHigh_default"] by blast
  have "computeIRR cfs = Some (midpoint cfs i)"
    if "\<not> js_gt (js_mul (npv cfs guessLow_default) (npv cfs guessHigh_default)) (Fin 0)"
    using that i(2) by (simp add: computeIRR_def computeIRR_with_def Let_def iterations_default_def)
  then show ?thesis
    using iff i by auto
qed



text \<open>
  The flows \<open>[-10000000, 13750875]\<close> have their root at the third midpoint, 0.3750875; the
  flows \<open>[100, 110]\<close> have no sign change between the bounds.
\<close>

lemma example_irr:
  "computeIRR [Fin (- 10000000), Fin 13750875] = Some (Fin (3750875 / 10000000))"
  by code_simp

lemma example_irr_sign:
  "\<not> js_gt (js_mul (npv [Fin (- 10000000), Fin 13750875] guessLow_default)
                    (npv [Fin (- 10000000), Fin 13750875] guessHigh_default)) (Fin 0)"
  by code_simp

lemma example_irr_null: "computeIRR [Fin 100, Fin 110] = None"
  by code_simp


theorem computeIRR_null_iff_same_sign_witness:
  "\<not> js_gt (js_mul (npv [Fin (- 10000000), Fin 13750875] guessLow_default)
                    (npv [Fin (- 10000000), Fin 13750875] guessHigh_default)) (Fin 0)
   \<and> computeIRR [Fin (- 10000000), Fin 13750875] = Some (Fin (3750875 / 10000000))
   \<and> js_gt (js_mul (npv [Fin 100, Fin 110] guessLow_default)
                  (npv [Fin 100, Fin 110] guessHigh_default)) (Fin 0)
   \<and> computeIRR [Fin 100, Fin 110] = None"
  using computeIRR_null_iff_same_sign [of "[Fin (- 10000000), Fin 13750875]"]
        computeIRR_null_iff_same_sign [of "[Fin 100, Fin 110]"]
        example_irr example_irr_sign example_irr_null
  by simp

text \<open>The reduce that computes the net present value is the sum of the discounted flows.\<close>

lemma npv_from_is_sum:
  "npv_from rate cfs t acc =
     foldl js_add acc
       (map (\<lambda>i. js_div (cfs ! i) (Math_pow (js_add (Fin 1) rate) (t + int i))) [0..<length cfs])"
proof (induction cfs arbitrary: t acc)
  case Nil
  then show ?case by simp
next
  case (Cons cf cfs)
  have "map (\<lambda>i. js_div ((cf # cfs) ! i) (Math_pow (js_add (Fin 1) rate) (t + int i)))
          [0..<length (cf # cfs)]
        = js_div cf (Math_pow (js_add (Fin 1) rate) t)
          # map (\<lambda>i. js_div (cfs ! i) (Math_pow (js_add (Fin 1) rate) (t + 1 + int i)))
              [0..<length cfs]"
    by (simp only: length_Cons upt_conv_Cons [of 0] map_Suc_upt [symmetric])
       (simp add: comp_def add.commute add.left_commute del: Math_pow.simps)
  then show ?case
    by (simp add: Cons.IH del: Math_pow.simps)
qed

lemma npv_is_sum:
  "npv cfs rate =
     js_sum (map (\<lambda>t. js_div (cfs ! t) (Math_pow (js_add (Fin 1) rate) (int t))) [0..<length cfs])"
  by (simp add: npv_def js_sum_def npv_from_is_sum del: Math_pow.simps)

section \<open>Debt amortizer\<close>

lemma zero_rate_step:
  "annuity_payment (normalise_debt zero_rate_debt) = NaN
   \<and> paymentAmount (normalise_debt zero_rate_debt) = NaN
   \<and> remaining_after (normalise_debt zero_rate_debt) = NaN"
  by (simp add: annuity_payment_def paymentAmount_def remaining_after_def normalise_debt_def
        zero_rate_debt_def or_else_def or_else_int_def truthy_def js_sub_def Math_min_def Math_max_def)

lemma zero_rate_run:
  "runAdvancedSimulation Map.empty Map.empty (\<lambda>_. 0) zero_rate_args =
     Inr (assemble None zero_rate_args (final_state None None (\<lambda>_. 0) zero_rate_args))"
  by (simp add: runAdvancedSimulation_def id_truthy_def zero_rate_args_def)

lemma zero_rate_records:
  "map (\<lambda>r. (map ds_remaining (debts r), debtPayment r, cashBalance r))
     (s_results (final_state None None (\<lambda>_. 0) zero_rate_args))
   = [([NaN], NaN, NaN), ([NaN], Fin 0, NaN)]"
  by code_simp

text \<open>
  C4: for a debt whose rate is \<open>0\<close> the annuity payment is \<open>0 / 0\<close>, so the payment and
  the new \<open>remaining\<close> are \<open>NaN\<close>: after the first serviced period the \<open>remaining\<close> of
  the debt is neither \<open>\<ge> 0\<close> nor \<open>\<le>\<close> its previous value 1000, and the period's debt payment
  and the cash balance are \<open>NaN\<close> as well.
\<close>

theorem zero_rate_debt_remaining_is_NaN:
  "\<exists>res. runAdvancedSimulation Map.empty Map.empty (\<lambda>_. 0) zero_rate_args = Inr res
     \<and> map (\<lambda>r. map ds_remaining (debts r)) (results res) = [[NaN], [NaN]]
     \<and> map debtPayment (results res) = [NaN, Fin 0]
     \<and> map cashBalance (results res) = [NaN, NaN]
     \<and> \<not> js_ge NaN (Fin 0) \<and> \<not> js_le NaN (Fin 1000)"
proof -
  let ?res = "assemble None zero_rate_args (final_state None None (\<lambda>_. 0) zero_rate_args)"
  have r: "results ?res = s_results (final_state None None (\<lambda>_. 0) zero_rate_args)"
    by (simp add: assemble_def Let_def)
  have "map (\<lambda>r. map ds_remaining (debts r)) (results ?res) = [[NaN], [NaN]]"
       "map debtPayment (results ?res) = [NaN, Fin 0]"
       "map cashBalance (results ?res) = [NaN, NaN]"
    using arg_cong [OF zero_rate_records, of "map fst"]
          arg_cong [OF zero_rate_records, of "map (fst \<circ> snd)"]
          arg_cong [OF zero_rate_records, of "map (snd \<circ> snd)"]
    by (simp_all add: r comp_def)
  then show ?thesis
    using zero_rate_run by (intro exI [of _ ?res]) (simp add: js_ge_def)
qed

text \<open>
  With a positive rate, a positive term and \<open>0 \<le> remaining \<le> principal\<close>, one servicing
  leaves \<open>remaining\<close> finite, non-negative and no larger than before.
\<close>

lemma remaining_after_bounds:
  assumes "principal d = Fin P" and "annualRate d = Fin r" and "remaining d = Fin R"
      and "0 < r" and "0 < periodsToRepay d" and "0 \<le> R" and "R \<le> P"
  shows "\<exists>R'. remaining_after d = Fin R' \<and> 0 \<le> R' \<and> R' \<le> R"
proof -
  define n where "n = nat (periodsToRepay d)"
  define q where "q = (1 + r) ^ n"
  have n: "0 < n" using assms(5) by (simp add: n_def)
  have q: "1 < q"
    unfolding q_def using assms(4) n by (intro one_less_power) simp_all
  define den where "den = 1 - 1 / q"
  have den: "0 < den" "den \<le> 1"
    using q by (simp_all add: den_def)
  have pw: "Math_pow (Fin (1 + r)) (- periodsToRepay d) = Fin (1 / q)"
    using assms(4,5) by (simp add: q_def n_def)
  define pay where "pay = P * r / den"
  have ap: "annuity_payment d = Fin pay"
  proof -
    have "annuity_payment d
          = js_div (Fin (P * r)) (js_sub (Fin 1) (Math_pow (Fin (1 + r)) (- periodsToRepay d)))"
      by (simp add: annuity_payment_def assms(1,2) del: Math_pow.simps)
    also have "\<dots> = js_div (Fin (P * r)) (Fin den)"
      by (simp only: pw) (simp add: js_sub_def den_def)
    also have "\<dots> = Fin pay"
      using den by (simp add: pay_def)
    finally show ?thesis .
  qed
  have "0 \<le> P" using assms(6,7) by simp
  then have "P * r \<le> pay"
    unfolding pay_def using den assms(4)
    by (simp add: pos_le_divide_eq mult_left_le)
  moreover have "R * r \<le> P * r"
    using assms(4,7) by simp
  ultimately have pay_ge: "R * r \<le> pay" by simp
  define pa where "pa = min pay (R + R * r)"
  have pam: "paymentAmount d = Fin pa"
    by (auto simp: paymentAmount_def ap assms(2,3) Math_min_def pa_def)
  have pa_ge: "R * r \<le> pa"
    using pay_ge assms(6) by (simp add: pa_def)
  define R' where "R' = max 0 (R - (pa - R * r))"
  have "remaining_after d = Fin R'"
    by (auto simp: remaining_after_def pam assms(2,3) js_sub_def Math_max_def R'_def)
  moreover have "0 \<le> R'" by (simp add: R'_def)
  moreover have "R' \<le> R" using pa_ge assms(6) by (simp add: R'_def)
  ultimately show ?thesis by blast
qed

lemma sound_debtD:
  "sound_debt d \<Longrightarrow>
     \<exists>P r R. principal d = Fin P \<and> annualRate d = Fin r \<and> remaining d = Fin R
        \<and> 0 < r \<and> 0 \<le> R \<and> R \<le> P"
  by (auto simp: sound_debt_def split: jsnum.splits)

lemma service_one_sound:
  assumes "sound_debt d" and "serviced t d"
  shows "sound_debt (d\<lparr>remaining := remaining_after d\<rparr>)
       \<and> no_increase (snapshot d) (snapshot (d\<lparr>remaining := remaining_after d\<rparr>))"
proof -
  obtain P r R where d: "principal d = Fin P" "annualRate d = Fin r" "remaining d = Fin R"
      "0 < r" "0 \<le> R" "R \<le> P"
    using sound_debtD [OF assms(1)] by blast
  have n: "0 < periodsToRepay d"
    using assms(2) by (simp add: serviced_def)
  obtain R' where R': "remaining_after d = Fin R'" "0 \<le> R'" "R' \<le> R"
    using remaining_after_bounds [OF d(1-4) n d(5,6)] by blast
  show ?thesis
    using d R' by (simp add: sound_debt_def no_increase_def snapshot_def js_ge_def)
qed

lemma no_increase_refl: "sound_debt d \<Longrightarrow> no_increase (snapshot d) (snapshot d)"
  by (auto simp: sound_debt_def no_increase_def snapshot_def js_ge_def split: jsnum.splits)

lemma service_debts_sound:
  "list_all sound_debt ds \<Longrightarrow>
     list_all sound_debt (fst (service_debts t ds tot))
     \<and> list_all2 no_increase (map snapshot ds) (map snapshot (fst (service_debts t ds tot)))"
proof (induction ds arbitrary: tot)
  case Nil
  then show ?case by simp
next
  case (Cons d ds)
  then have d: "sound_debt d" and ds: "list_all sound_debt ds" by simp_all
  show ?case
  proof (cases "serviced t d")
    case True
    then show ?thesis
      using service_one_sound [OF d True] Cons.IH [OF ds, of "js_add tot (paymentAmount d)"]
      by (simp add: split_beta)
  next
    case False
    then show ?thesis
      using no_increase_refl [OF d] d Cons.IH [OF ds, of tot]
      by (simp add: split_beta)
  qed
qed

lemma period_step_debts:
  "s_debts (period_step e t st) = fst (service_debts t (s_debts st) (Fin 0))
   \<and> (\<exists>r. s_results (period_step e t st) = s_results st @ [r]
          \<and> debts r = map snapshot (s_debts (period_step e t st)))"
  by (simp add: period_step_def Let_def snapshot_def split: prod.splits)

lemma debts_inv_step:
  assumes "debts_inv s"
  shows "debts_inv (period_step e t s)"
proof -
  let ?s' = "period_step e t s"
  obtain r where r: "s_results ?s' = s_results s @ [r]" "debts r = map snapshot (s_debts ?s')"
    using period_step_debts [of e t s] by blast
  have sd: "s_debts ?s' = fst (service_debts t (s_debts s) (Fin 0))"
    using period_step_debts [of e t s] by blast
  have a: "list_all sound_debt (s_debts s)"
    using assms by (simp add: debts_inv_def)
  have snd: "list_all sound_debt (s_debts ?s')"
    and ni: "list_all2 no_increase (map snapshot (s_debts s)) (map snapshot (s_debts ?s'))"
    using service_debts_sound [OF a, of t "Fin 0"] unfolding sd by simp_all
  have chain: "list_all2 no_increase (debts ((s_results s @ [r]) ! i))
                 (debts ((s_results s @ [r]) ! Suc i))"
    if "Suc i < Suc (length (s_results s))" for i
  proof (cases "Suc i < length (s_results s)")
    case True
    then show ?thesis
      using assms by (simp add: debts_inv_def nth_append)
  next
    case False
    with that have i: "Suc i = length (s_results s)" by simp
    then have ne: "s_results s \<noteq> []" by auto
    have "i = length (s_results s) - 1"
      using i by simp
    then have "(s_results s @ [r]) ! i = last (s_results s)"
      using i ne by (simp add: nth_append last_conv_nth)
    moreover have "(s_results s @ [r]) ! Suc i = r"
      using i by (simp add: nth_append)
    moreover have "debts (last (s_results s)) = map snapshot (s_debts s)"
      using assms ne by (simp add: debts_inv_def)
    ultimately show ?thesis
      using ni r(2) by simp
  qed
  show ?thesis
    unfolding debts_inv_def r(1)
    using snd r(2) chain by simp
qed

lemma debts_inv_final:
  assumes "list_all sound_debt (initial_debts b (arg_overrides args))"
  shows "debts_inv (final_state b s rnd args)"
  unfolding final_state_def
proof (rule period_loop_invariant)
  show "debts_inv (init_state b (arg_overrides args))"
    using assms by (simp add: debts_inv_def init_state_def)
qed (rule debts_inv_step)

text \<open>
  When every debt of a run is sound at the start, the \<open>remaining\<close> of each debt is
  non-negative and does not increase from one period record to the next.
\<close>

lemma sound_debts_never_increase:
  assumes "runAdvancedSimulation Business Strategy rnd args = Inr res"
      and "\<And>b. list_all sound_debt (initial_debts b (arg_overrides args))"
      and "Suc i < length (results res)"
  shows "list_all2 no_increase (debts (results res ! i)) (debts (results res ! Suc i))"
proof -
  obtain b s where res: "res = assemble b args (final_state b s rnd args)"
    using run_Inr [OF assms(1)] by blast
  have "debts_inv (final_state b s rnd args)"
    by (rule debts_inv_final) (rule assms(2))
  then show ?thesis
    using assms(3) by (simp add: res assemble_def Let_def debts_inv_def)
qed

end
